theory Spec2Isabelle
  imports Main
begin

section \<open>Audio buffers\<close>

text \<open>
  The sequencer of \<^verbatim>\<open>src/muzicode.py\<close> builds its output from the buffers of an
  audio library that is not part of the repository. The code uses five operations of it:
  \<^verbatim>\<open>AudioSegment.silent(duration=d)\<close>, \<^verbatim>\<open>len(seg)\<close> (a duration in
  milliseconds), \<^verbatim>\<open>a + b\<close>, \<^verbatim>\<open>a.overlay(b)\<close> and the truth value of a
  buffer in \<^verbatim>\<open>if sound:\<close>. A buffer is modelled at the resolution the code works
  at, one frame per millisecond: a list of sample values.
\<close>

type_synonym audio = "int list"

text \<open>
  Modelled from the spec: \<^verbatim>\<open>len(seg)\<close> is the library's, the derived duration
  of a buffer, in milliseconds (a Python int).
\<close>

definition len :: "audio \<Rightarrow> int" where
  "len seg = int (length seg)"

text \<open>
  Modelled from the spec: \<^verbatim>\<open>AudioSegment.silent\<close> is the library's. A silence of
  \<open>d\<close> milliseconds is \<open>d\<close> frames of value zero; the spec's data model treats a
  negative duration as clamped to zero (the library multiplies a byte string by the frame
  count, which yields the empty string for a negative count).
\<close>

definition silent :: "int \<Rightarrow> audio" where
  "silent duration = replicate (nat duration) 0"

text \<open>
  Modelled from the spec: the clamping of a sum of two samples to the valid amplitude
  range, which is the library's; 16-bit samples, as \<^verbatim>\<open>silent\<close> produces them.
\<close>

definition clamp16 :: "int \<Rightarrow> int" where
  "clamp16 x = max (- 32768) (min 32767 x)"

text \<open>
  Modelled from the spec: \<^verbatim>\<open>overlay\<close> is the library's. The spec's mixer sums
  sample values from offset 0 with clamping; the result has the duration of the buffer
  overlaid onto: a longer source is cut there, a shorter one leaves the rest as it is.
\<close>

fun overlay :: "audio \<Rightarrow> audio \<Rightarrow> audio" where
  "overlay [] seg = []"
| "overlay (x # xs) [] = x # xs"
| "overlay (x # xs) (y # ys) = clamp16 (x + y) # overlay xs ys"

text \<open>
  The truth value of an \<^verbatim>\<open>Optional[AudioSegment]\<close>: \<^verbatim>\<open>None\<close> is false, and a
  buffer, whose class defines \<^verbatim>\<open>__len__\<close> and no \<^verbatim>\<open>__bool__\<close>, is true
  exactly when its length is not zero.
\<close>

fun truthy :: "audio option \<Rightarrow> bool" where
  "truthy None = False"
| "truthy (Some seg) = (len seg \<noteq> 0)"


section \<open>The sequencer and its environment\<close>

text \<open>
  What the program prints, one constructor per \<^verbatim>\<open>print\<close> call of the source:
  \<^item> \<open>TempoOutOfRange v\<close>: "Tempo v fuera de rango (20-300). Usando valor por defecto 120."
  \<^item> \<open>FileNotFound p\<close>: "Archivo no encontrado: p"
  \<^item> \<open>LoadError p\<close>: "Error cargando p: ..."
  \<^item> \<open>NoItems\<close>: "Error: No hay items para mezclar"
  \<^item> \<open>Saved f\<close>: "Mezcla guardada como f"
\<close>

datatype msg =
    TempoOutOfRange int
  | FileNotFound string
  | LoadError string
  | NoItems
  | Saved string

type_synonym handle = nat

text \<open>
  The effects of the program in the order they happen: a printed line, a \<^verbatim>\<open>stop()\<close>
  on a playback handle, a buffer handed to the playback sink
  (\<^verbatim>\<open>_play_with_simpleaudio\<close>), a buffer handed to the file exporter
  (\<^verbatim>\<open>export\<close>).
\<close>

datatype event =
    Print msg
  | Stop handle
  | Play handle audio
  | Export string audio

text \<open>A file on disk either decodes as a WAV buffer or makes \<^verbatim>\<open>from_wav\<close> raise.\<close>

datatype disk_file = Wav audio | NotWav

datatype py_error = KeyError | ZeroDivisionError

text \<open>
  The fields of \<^verbatim>\<open>MusicSequencer\<close> (\<open>tempo\<close> to \<open>current_playback\<close>), and the
  environment the methods act on: the files on disk, the handles the sink is playing
  (started and not stopped), the next fresh handle, and the trace of effects.
\<close>

record sequencer =
  tempo :: int
  patterns :: "string \<rightharpoonup> int list"
  melodies :: "string \<rightharpoonup> string list"
  samples_dir :: string
  notes_dir :: string
  current_playback :: "handle option"
  files :: "string \<rightharpoonup> disk_file"
  playing :: "handle list"
  next_handle :: handle
  trace :: "event list"

text \<open>\<^verbatim>\<open>__init__\<close>, in an environment with the files \<open>fs\<close>.\<close>

definition init :: "(string \<rightharpoonup> disk_file) \<Rightarrow> sequencer" where
  "init fs = \<lparr> tempo = 120, patterns = Map.empty, melodies = Map.empty,
      samples_dir = ''samples'', notes_dir = ''notes'', current_playback = None,
      files = fs, playing = [], next_handle = 0, trace = [] \<rparr>"

definition print :: "msg \<Rightarrow> sequencer \<Rightarrow> sequencer" where
  "print m s = s\<lparr>trace := trace s @ [Print m]\<rparr>"

text \<open>
  \<^verbatim>\<open>stop_playback\<close>: a held handle (a play object is always true) is asked to stop.
  The field \<open>current_playback\<close> is not cleared.
\<close>

definition stop_playback :: "sequencer \<Rightarrow> sequencer" where
  "stop_playback s =
     (case current_playback s of
        None \<Rightarrow> s
      | Some h \<Rightarrow> s\<lparr>playing := removeAll h (playing s), trace := trace s @ [Stop h]\<rparr>)"

text \<open>\<^verbatim>\<open>set_tempo\<close>.\<close>

definition set_tempo :: "sequencer \<Rightarrow> int \<Rightarrow> sequencer" where
  "set_tempo s new_tempo =
     (if 20 \<le> new_tempo \<and> new_tempo \<le> 300 then s\<lparr>tempo := new_tempo\<rparr>
      else print (TempoOutOfRange new_tempo) s)"

text \<open>
  \<^verbatim>\<open>load_audio_file\<close>: a missing file and a file that does not decode both give
  \<^verbatim>\<open>None\<close>, after a printed line.
\<close>

definition load_audio_file :: "sequencer \<Rightarrow> string \<Rightarrow> audio option \<times> sequencer" where
  "load_audio_file s file_path =
     (case files s file_path of
        None \<Rightarrow> (None, print (FileNotFound file_path) s)
      | Some (Wav seg) \<Rightarrow> (Some seg, s)
      | Some NotWav \<Rightarrow> (None, print (LoadError file_path) s))"


section \<open>Rendering\<close>

text \<open>
  What one pass of the loop of \<^verbatim>\<open>create_pattern_sound\<close> adds to \<open>sound\<close>
  (lines 119 to 122): the test is \<^verbatim>\<open>val == 1\<close>.
\<close>

definition pattern_slot :: "audio \<Rightarrow> int \<Rightarrow> int \<Rightarrow> audio" where
  "pattern_slot hit_sound beat_ms val =
     (if val = 1 then hit_sound @ silent (beat_ms - len hit_sound)
      else silent beat_ms)"

text \<open>The loop itself: \<open>sound\<close> is the accumulator the source extends with \<^verbatim>\<open>+=\<close>.\<close>

fun pattern_loop :: "audio \<Rightarrow> int \<Rightarrow> int list \<Rightarrow> audio \<Rightarrow> audio" where
  "pattern_loop hit_sound beat_ms [] sound = sound"
| "pattern_loop hit_sound beat_ms (val # vals) sound =
     pattern_loop hit_sound beat_ms vals (sound @ pattern_slot hit_sound beat_ms val)"

text \<open>
  \<^verbatim>\<open>create_pattern_sound\<close>: \<^verbatim>\<open>self.patterns[name]\<close> raises \<^verbatim>\<open>KeyError\<close> for an
  unknown name, before the sample is loaded.
\<close>

definition create_pattern_sound ::
  "sequencer \<Rightarrow> string \<Rightarrow> int \<Rightarrow> py_error + (audio option \<times> sequencer)" where
  "create_pattern_sound s name beat_ms =
     (case patterns s name of
        None \<Rightarrow> Inl KeyError
      | Some pattern \<Rightarrow>
          (case load_audio_file s (samples_dir s @ ''/'' @ name @ ''.wav'') of
             (hit_sound, s') \<Rightarrow>
               if \<not> truthy hit_sound then Inr (None, s')
               else Inr (Some (pattern_loop (the hit_sound) beat_ms pattern (silent 0)), s')))"

text \<open>
  What one pass of the loop of \<^verbatim>\<open>create_melody_sound\<close> adds to \<open>sound\<close>
  (lines 132 to 135), given what the load of the note returned.
\<close>

definition note_slot :: "audio option \<Rightarrow> int \<Rightarrow> audio" where
  "note_slot note_audio beat_ms =
     (if truthy note_audio
      then the note_audio @ silent (beat_ms - len (the note_audio))
      else silent beat_ms)"

text \<open>The loop itself: one load per note, in order.\<close>

fun melody_loop :: "sequencer \<Rightarrow> int \<Rightarrow> string list \<Rightarrow> audio \<Rightarrow> audio \<times> sequencer" where
  "melody_loop s beat_ms [] sound = (sound, s)"
| "melody_loop s beat_ms (note # notes) sound =
     (case load_audio_file s (notes_dir s @ ''/'' @ note @ ''.wav'') of
        (note_audio, s') \<Rightarrow>
          melody_loop s' beat_ms notes (sound @ note_slot note_audio beat_ms))"

definition create_melody_sound ::
  "sequencer \<Rightarrow> string \<Rightarrow> int \<Rightarrow> py_error + (audio option \<times> sequencer)" where
  "create_melody_sound s name beat_ms =
     (case melodies s name of
        None \<Rightarrow> Inl KeyError
      | Some notes \<Rightarrow>
          (case melody_loop s beat_ms notes (silent 0) of
             (sound, s') \<Rightarrow> Inr (Some sound, s')))"


section \<open>Mixing\<close>

text \<open>
  The loop over the item names, which \<^verbatim>\<open>mix_and_play\<close> (lines 73 to 82) and
  \<^verbatim>\<open>mix_and_save\<close> (lines 95 to 104) both contain, word for word: a name is looked up
  among the patterns first, then among the melodies, and is skipped when it is neither;
  a result that is true is overlaid onto \<open>final\<close>.
\<close>

fun mix_items ::
  "sequencer \<Rightarrow> string list \<Rightarrow> int \<Rightarrow> audio \<Rightarrow> py_error + (audio \<times> sequencer)" where
  "mix_items s [] beat_ms final = Inr (final, s)"
| "mix_items s (name # items) beat_ms final =
     (case (if name \<in> dom (patterns s) then create_pattern_sound s name beat_ms
            else if name \<in> dom (melodies s) then create_melody_sound s name beat_ms
            else Inr (None, s)) of
        Inl e \<Rightarrow> Inl e
      | Inr (sound, s') \<Rightarrow>
          mix_items s' items beat_ms
            (if truthy sound then overlay final (the sound) else final))"

text \<open>
  \<^verbatim>\<open>_play_with_simpleaudio(final)\<close> followed by the assignment to
  \<^verbatim>\<open>self.current_playback\<close>: the sink starts playing under a fresh handle. The
  sink is taken to accept every buffer; a playback that ends by itself is not modelled.
\<close>

definition play_with_simpleaudio :: "sequencer \<Rightarrow> audio \<Rightarrow> sequencer" where
  "play_with_simpleaudio s final =
     (let h = next_handle s in
      s\<lparr>current_playback := Some h, playing := playing s @ [h], next_handle := Suc h,
        trace := trace s @ [Play h final]\<rparr>)"

text \<open>
  \<^verbatim>\<open>final.export(filename, format="wav")\<close>: the file is written, so a later load of
  that path decodes to the buffer. The write is taken to succeed.
\<close>

definition export :: "sequencer \<Rightarrow> string \<Rightarrow> audio \<Rightarrow> sequencer" where
  "export s filename final =
     s\<lparr>files := (files s)(filename \<mapsto> Wav final), trace := trace s @ [Export filename final]\<rparr>"

text \<open>
  \<^verbatim>\<open>mix_and_play\<close>: \<^verbatim>\<open>60000 // self.tempo\<close> raises for a tempo of zero and is the
  floor division otherwise, as \<open>div\<close> on \<open>int\<close> is. The \<open>loop\<close> branch is
  \<^verbatim>\<open>pass\<close>.
\<close>

definition mix_and_play :: "sequencer \<Rightarrow> string list \<Rightarrow> bool \<Rightarrow> py_error + sequencer" where
  "mix_and_play s items loop =
     (if items = [] then Inr (print NoItems s)
      else if tempo s = 0 then Inl ZeroDivisionError
      else
        let beat_ms = 60000 div tempo s;
            final = silent (beat_ms * 4)
        in (case mix_items s items beat_ms final of
              Inl e \<Rightarrow> Inl e
            | Inr (final', s') \<Rightarrow>
                let s'' = play_with_simpleaudio (stop_playback s') final'
                in if loop then Inr s'' else Inr s''))"

text \<open>\<^verbatim>\<open>mix_and_save\<close>: the source has no test of \<open>items\<close> here.\<close>

definition mix_and_save :: "sequencer \<Rightarrow> string list \<Rightarrow> string \<Rightarrow> py_error + sequencer" where
  "mix_and_save s items filename =
     (if tempo s = 0 then Inl ZeroDivisionError
      else
        let beat_ms = 60000 div tempo s;
            final = silent (beat_ms * 4)
        in (case mix_items s items beat_ms final of
              Inl e \<Rightarrow> Inl e
            | Inr (final', s') \<Rightarrow> Inr (print (Saved filename) (export s' filename final'))))"


section \<open>Commands\<close>

text \<open>
  The five commands \<^verbatim>\<open>parse_line\<close> recognises, with the arguments its regular
  expressions extract, and the branch it runs for each.
\<close>

datatype command =
    SetTempo int
  | DefinePattern string "int list"
  | DefineMelody string "string list"
  | Mix "string list"
  | Save "string list" string

fun exec :: "sequencer \<Rightarrow> command \<Rightarrow> py_error + sequencer" where
  "exec s (SetTempo v) = Inr (set_tempo s v)"
| "exec s (DefinePattern name vals) = Inr (s\<lparr>patterns := (patterns s)(name \<mapsto> vals)\<rparr>)"
| "exec s (DefineMelody name notes) = Inr (s\<lparr>melodies := (melodies s)(name \<mapsto> notes)\<rparr>)"
| "exec s (Mix items) = mix_and_play s items False"
| "exec s (Save items filename) = mix_and_save s items filename"

text \<open>
  A sequence of commands, as \<^verbatim>\<open>load_song_file\<close> runs the lines of a file: an
  exception ends the run.
\<close>

fun run :: "sequencer \<Rightarrow> command list \<Rightarrow> py_error + sequencer" where
  "run s [] = Inr s"
| "run s (c # cs) = (case exec s c of Inl e \<Rightarrow> Inl e | Inr s' \<Rightarrow> run s' cs)"


section \<open>Notions used in the statements\<close>

text \<open>
  The slot of a note in a rendered melody, as a function of the files on disk alone: the
  slot the loop adds for what the load of that note returns.
\<close>

definition melody_slot :: "sequencer \<Rightarrow> int \<Rightarrow> string \<Rightarrow> audio" where
  "melody_slot s beat_ms note =
     note_slot (fst (load_audio_file s (notes_dir s @ ''/'' @ note @ ''.wav''))) beat_ms"

text \<open>
  The slot of a flag as the specification words it, to be compared with
  \<open>pattern_slot\<close>: a flag is a hit when it is not zero.
\<close>

definition spec_pattern_slot :: "audio \<Rightarrow> int \<Rightarrow> int \<Rightarrow> audio" where
  "spec_pattern_slot hit_sound beat_ms val =
     (if val \<noteq> 0 then hit_sound @ silent (beat_ms - len hit_sound)
      else silent beat_ms)"

text \<open>\<open>s'\<close> is \<open>s\<close> after some more effects were recorded, and nothing else changed.\<close>

definition logs :: "sequencer \<Rightarrow> sequencer \<Rightarrow> bool" where
  "logs s s' = (\<exists>t. s' = s\<lparr>trace := trace s @ t\<rparr>)"

text \<open>
  The handles the sink is playing are at most the one handle the sequencer holds.
\<close>

definition one_playback :: "sequencer \<Rightarrow> bool" where
  "one_playback s =
     (case current_playback s of
        None \<Rightarrow> playing s = []
      | Some h \<Rightarrow> playing s = [] \<or> playing s = [h])"


section \<open>Facts about buffers and the trace\<close>

lemma len_Nil: "len [] = 0"
  by (simp add: len_def)

lemma len_append: "len (a @ b) = len a + len b"
  by (simp add: len_def)

lemma len_nonneg: "0 \<le> len a"
  by (simp add: len_def)

lemma len_silent: "len (silent d) = max 0 d"
  by (simp add: len_def silent_def)

lemma silent_nonpos: "d \<le> 0 \<Longrightarrow> silent d = []"
  by (simp add: silent_def)

lemma pattern_loop_concat:
  "pattern_loop hit beat_ms vals sound = sound @ concat (map (pattern_slot hit beat_ms) vals)"
  by (induction vals arbitrary: sound) simp_all

lemma logs_refl: "logs s s"
  unfolding logs_def by (rule exI [of _ "[]"]) simp

lemma logs_trans: "logs s s' \<Longrightarrow> logs s' s'' \<Longrightarrow> logs s s''"
  by (auto simp: logs_def)

lemma logs_print: "logs s (print m s)"
  by (auto simp: logs_def print_def)

lemma logs_fields:
  "logs s s' \<Longrightarrow> tempo s' = tempo s \<and> patterns s' = patterns s \<and> melodies s' = melodies s \<and>
     samples_dir s' = samples_dir s \<and> notes_dir s' = notes_dir s \<and>
     current_playback s' = current_playback s \<and> files s' = files s \<and>
     playing s' = playing s \<and> next_handle s' = next_handle s"
  by (auto simp: logs_def)

lemma load_audio_file_logs: "logs s (snd (load_audio_file s p))"
  by (simp add: load_audio_file_def logs_refl logs_print split: option.split disk_file.split)

lemma load_audio_file_cong:
  "logs s s' \<Longrightarrow> fst (load_audio_file s' p) = fst (load_audio_file s p)"
  by (auto simp: load_audio_file_def dest!: logs_fields split: option.split disk_file.split)

lemma melody_slot_cong: "logs s s' \<Longrightarrow> melody_slot s' beat_ms note = melody_slot s beat_ms note"
  using load_audio_file_cong [of s s'] logs_fields [of s s'] by (simp add: melody_slot_def)

lemma melody_loop_concat:
  "\<exists>s'. melody_loop s beat_ms ns sound =
          (sound @ concat (map (melody_slot s beat_ms) ns), s') \<and> logs s s'"
proof (induction ns arbitrary: s sound)
  case Nil
  show ?case by (simp add: logs_refl)
next
  case (Cons n ns)
  let ?p = "notes_dir s @ ''/'' @ n @ ''.wav''"
  obtain a s1 where l: "load_audio_file s ?p = (a, s1)" by (cases "load_audio_file s ?p")
  have l1: "logs s s1" using load_audio_file_logs [of s ?p] l by simp
  from Cons.IH [of s1 "sound @ note_slot a beat_ms"] obtain s' where
    r: "melody_loop s1 beat_ms ns (sound @ note_slot a beat_ms) =
          ((sound @ note_slot a beat_ms) @ concat (map (melody_slot s1 beat_ms) ns), s')"
    and l2: "logs s1 s'" by blast
  have m: "map (melody_slot s1 beat_ms) ns = map (melody_slot s beat_ms) ns"
    using melody_slot_cong [OF l1] by simp
  have a: "melody_slot s beat_ms n = note_slot a beat_ms"
    using l by (simp add: melody_slot_def)
  show ?case using l r m a logs_trans [OF l1 l2] by simp
qed

lemma note_slot_len:
  "0 \<le> beat_ms \<Longrightarrow> (\<And>seg. a = Some seg \<Longrightarrow> len seg \<le> beat_ms) \<Longrightarrow> len (note_slot a beat_ms) = beat_ms"
  by (cases a) (auto simp: note_slot_def len_append len_silent)

lemma len_concat_const:
  "(\<And>x. x \<in> set xs \<Longrightarrow> len (f x) = b) \<Longrightarrow> len (concat (map f xs)) = int (length xs) * b"
  by (induction xs) (simp_all add: len_Nil len_append algebra_simps)


section \<open>Rendering a pattern and a melody\<close>

text \<open>
  A sample that loads with a duration of zero is false in \<^verbatim>\<open>if not hit_sound\<close>: the
  pattern renders to \<^verbatim>\<open>None\<close> as if the load had failed.
\<close>

lemma create_pattern_sound_empty_sample:
  assumes "patterns s name = Some pattern"
    and "files s (samples_dir s @ ''/'' @ name @ ''.wav'') = Some (Wav [])"
  shows "create_pattern_sound s name beat_ms = Inr (None, s)"
  using assms by (simp add: create_pattern_sound_def load_audio_file_def len_def)

text \<open>
  C5. For every pattern whose one sound asset fails to load (the file is missing or does
  not decode), \<open>create_pattern_sound\<close> returns \<^verbatim>\<open>None\<close> whatever the flags
  are, rests included, and the mix is left as it was for that name.
\<close>

theorem C5_pattern_load_failure:
  assumes "patterns s name = Some pattern"
    and "fst (load_audio_file s (samples_dir s @ ''/'' @ name @ ''.wav'')) = None"
  shows "\<exists>s'. create_pattern_sound s name beat_ms = Inr (None, s') \<and> logs s s' \<and>
           mix_items s [name] beat_ms final = Inr (final, s')"
proof -
  let ?p = "samples_dir s @ ''/'' @ name @ ''.wav''"
  obtain s' where l: "load_audio_file s ?p = (None, s')"
    using assms(2) by (cases "load_audio_file s ?p") simp
  have c: "create_pattern_sound s name beat_ms = Inr (None, s')"
    using assms(1) l by (simp add: create_pattern_sound_def)
  have "logs s s'" using load_audio_file_logs [of s ?p] l by simp
  moreover have "mix_items s [name] beat_ms final = Inr (final, s')"
    using assms(1) c by (simp add: domI)
  ultimately show ?thesis using c by blast
qed

theorem C5_pattern_load_failure_witness:
  "\<exists>s'. create_pattern_sound ((init Map.empty)\<lparr>patterns := [''drums'' \<mapsto> [1, 0, 1, 0]]\<rparr>) ''drums'' 500
       = Inr (None, s') \<and>
     mix_items ((init Map.empty)\<lparr>patterns := [''drums'' \<mapsto> [1, 0, 1, 0]]\<rparr>) [''drums''] 500 [0, 0]
       = Inr ([0, 0], s')"
  using C5_pattern_load_failure [of "(init Map.empty)\<lparr>patterns := [''drums'' \<mapsto> [1, 0, 1, 0]]\<rparr>"
      "''drums''" "[1, 0, 1, 0]" 500 "[0, 0]"]
  by (simp add: init_def load_audio_file_def) blast

text \<open>
  C3, as the code has it. For every pattern whose sound asset loads with a duration that
  is not zero, \<open>create_pattern_sound\<close> returns the slots of the flags in order: a
  flag equal to 1 gives the hit sample followed by a silence of
  \<open>beat_ms - len hit\<close>, and every other flag, 0 and 2 alike, gives a silence of
  \<open>beat_ms\<close>.
\<close>

theorem C3_pattern_slots:
  assumes "patterns s name = Some pattern"
    and "files s (samples_dir s @ ''/'' @ name @ ''.wav'') = Some (Wav hit)"
    and "hit \<noteq> []"
  shows "create_pattern_sound s name beat_ms =
           Inr (Some (concat (map (pattern_slot hit beat_ms) pattern)), s) \<and>
         pattern_slot hit beat_ms 1 = hit @ silent (beat_ms - len hit) \<and>
         (\<forall>val. val \<noteq> 1 \<longrightarrow> pattern_slot hit beat_ms val = silent beat_ms) \<and>
         pattern_slot hit beat_ms 0 = silent beat_ms \<and>
         pattern_slot hit beat_ms 2 = silent beat_ms"
  using assms
  by (simp add: create_pattern_sound_def load_audio_file_def pattern_loop_concat
      pattern_slot_def len_def silent_def)

theorem C3_pattern_slots_witness:
  "create_pattern_sound
     ((init [''samples/drums.wav'' \<mapsto> Wav [7, 7]])\<lparr>patterns := [''drums'' \<mapsto> [1, 0, 2]]\<rparr>)
     ''drums'' 5 =
   Inr (Some [7, 7, 0, 0, 0, 0, 0, 0, 0, 0, 0, 0, 0, 0, 0],
     (init [''samples/drums.wav'' \<mapsto> Wav [7, 7]])\<lparr>patterns := [''drums'' \<mapsto> [1, 0, 2]]\<rparr>)"
  using C3_pattern_slots [of
      "(init [''samples/drums.wav'' \<mapsto> Wav [7, 7]])\<lparr>patterns := [''drums'' \<mapsto> [1, 0, 2]]\<rparr>"
      "''drums''" "[1, 0, 2]" "[7, 7]" 5]
  by (simp add: init_def pattern_slot_def silent_def len_def numeral_eq_Suc)

text \<open>
  The claim C3 as stated (a flag that is not zero is a hit) fails for the pattern
  \<open>[2]\<close> with a sample of 2 ms and a beat of 5 ms: the code renders a silent slot,
  where the stated slot starts with the sample.
\<close>

theorem C3_counterexample:
  "create_pattern_sound
     ((init [''samples/drums.wav'' \<mapsto> Wav [7, 7]])\<lparr>patterns := [''drums'' \<mapsto> [2]]\<rparr>)
     ''drums'' 5 =
   Inr (Some [0, 0, 0, 0, 0],
     (init [''samples/drums.wav'' \<mapsto> Wav [7, 7]])\<lparr>patterns := [''drums'' \<mapsto> [2]]\<rparr>) \<and>
   concat (map (spec_pattern_slot [7, 7] 5) [2]) = [7, 7, 0, 0, 0]"
  by (simp add: create_pattern_sound_def load_audio_file_def init_def pattern_slot_def
      spec_pattern_slot_def silent_def len_def numeral_eq_Suc)

text \<open>
  C8. For every hit or note slot whose sample is longer than one beat, the padding
  duration \<open>beat_ms - len seg\<close> is negative, the padding is empty, and the slot is
  the sample itself, of the sample's duration and not of \<open>beat_ms\<close>.
\<close>

theorem C8_long_sample:
  assumes "beat_ms < len seg"
  shows "beat_ms - len seg < 0 \<and> silent (beat_ms - len seg) = [] \<and>
         pattern_slot seg beat_ms 1 = seg \<and> note_slot (Some seg) beat_ms = seg \<and>
         len (pattern_slot seg beat_ms 1) = len seg \<and>
         len (note_slot (Some seg) beat_ms) = len seg \<and>
         pattern_loop seg beat_ms [1] (silent 0) = seg"
proof -
  have s: "silent (beat_ms - len seg) = []" using assms by (simp add: silent_def)
  have p: "pattern_slot seg beat_ms 1 = seg" using s by (simp add: pattern_slot_def)
  have n: "note_slot (Some seg) beat_ms = seg"
  proof (cases "seg = []")
    case True
    then have "beat_ms < 0" using assms by (simp add: len_def)
    then show ?thesis using True by (simp add: note_slot_def silent_def len_def)
  next
    case False
    then show ?thesis using s by (simp add: note_slot_def len_def)
  qed
  show ?thesis using assms s p n by (simp add: silent_def)
qed

theorem C8_long_sample_witness:
  "(2::int) < len [7, 8, 9] \<and> pattern_slot [7, 8, 9] 2 1 = [7, 8, 9] \<and>
   note_slot (Some [7, 8, 9]) 2 = [7, 8, 9] \<and> len (pattern_slot [7, 8, 9] 2 1) = 3"
proof -
  have h: "(2::int) < len [7, 8, 9]" by (simp add: len_def)
  show ?thesis using h C8_long_sample [OF h] by (simp add: len_def)
qed

text \<open>
  C4. For every melody, \<open>create_melody_sound\<close> returns the slots of the notes in
  order, each decided by the load of that note alone: a failed load gives a silence of
  \<open>beat_ms\<close> (of that duration exactly, a beat being a duration and so not negative),
  a loaded sample gives the sample and its padding, whatever the other notes are. When
  moreover no loaded sample is longer than a beat, every slot lasts \<open>beat_ms\<close> and
  the track lasts \<open>n * beat_ms\<close> for \<open>n\<close> notes.
\<close>

theorem C4_melody_slots:
  assumes "melodies s name = Some ns"
  shows "(\<exists>s'. create_melody_sound s name beat_ms =
                 Inr (Some (concat (map (melody_slot s beat_ms) ns)), s') \<and> logs s s') \<and>
         (\<forall>n.
            (fst (load_audio_file s (notes_dir s @ ''/'' @ n @ ''.wav'')) = None \<longrightarrow>
               melody_slot s beat_ms n = silent beat_ms \<and>
               len (melody_slot s beat_ms n) = max 0 beat_ms) \<and>
            (\<forall>seg. fst (load_audio_file s (notes_dir s @ ''/'' @ n @ ''.wav'')) = Some seg \<longrightarrow>
               melody_slot s beat_ms n = seg @ silent (beat_ms - len seg))) \<and>
         (0 \<le> beat_ms \<longrightarrow>
            (\<forall>n. fst (load_audio_file s (notes_dir s @ ''/'' @ n @ ''.wav'')) = None \<longrightarrow>
               len (melody_slot s beat_ms n) = beat_ms)) \<and>
         (0 \<le> beat_ms \<and>
          (\<forall>n\<in>set ns. \<forall>seg.
             fst (load_audio_file s (notes_dir s @ ''/'' @ n @ ''.wav'')) = Some seg \<longrightarrow>
             len seg \<le> beat_ms) \<longrightarrow>
            (\<forall>n\<in>set ns. len (melody_slot s beat_ms n) = beat_ms) \<and>
            len (concat (map (melody_slot s beat_ms) ns)) = int (length ns) * beat_ms)"
proof -
  obtain s' where m: "melody_loop s beat_ms ns (silent 0) =
      (silent 0 @ concat (map (melody_slot s beat_ms) ns), s')" and l: "logs s s'"
    using melody_loop_concat [of s beat_ms ns "silent 0"] by blast
  have c: "create_melody_sound s name beat_ms =
      Inr (Some (concat (map (melody_slot s beat_ms) ns)), s')"
    using assms m by (simp add: create_melody_sound_def silent_def)
  have f: "melody_slot s beat_ms n = silent beat_ms \<and>
      len (melody_slot s beat_ms n) = max 0 beat_ms"
    if "fst (load_audio_file s (notes_dir s @ ''/'' @ n @ ''.wav'')) = None" for n
    using that by (simp add: melody_slot_def note_slot_def len_silent)
  have g: "melody_slot s beat_ms n = seg @ silent (beat_ms - len seg)"
    if "fst (load_audio_file s (notes_dir s @ ''/'' @ n @ ''.wav'')) = Some seg" for n seg
    using that by (simp add: melody_slot_def note_slot_def len_def)
  have fl: "len (melody_slot s beat_ms n) = beat_ms"
    if "0 \<le> beat_ms"
      and "fst (load_audio_file s (notes_dir s @ ''/'' @ n @ ''.wav'')) = None" for n
    using that by (simp add: melody_slot_def note_slot_def len_silent)
  have tot: "(\<forall>n\<in>set ns. len (melody_slot s beat_ms n) = beat_ms) \<and>
      len (concat (map (melody_slot s beat_ms) ns)) = int (length ns) * beat_ms"
    if b: "0 \<le> beat_ms"
      and h: "\<forall>n\<in>set ns. \<forall>seg.
             fst (load_audio_file s (notes_dir s @ ''/'' @ n @ ''.wav'')) = Some seg \<longrightarrow>
             len seg \<le> beat_ms"
  proof -
    have sl: "len (melody_slot s beat_ms n) = beat_ms" if "n \<in> set ns" for n
      unfolding melody_slot_def
      using b h that by (intro note_slot_len) auto
    have "len (concat (map (melody_slot s beat_ms) ns)) = int (length ns) * beat_ms"
      using sl by (rule len_concat_const)
    then show ?thesis using sl by simp
  qed
  have first: "\<exists>s'. create_melody_sound s name beat_ms =
      Inr (Some (concat (map (melody_slot s beat_ms) ns)), s') \<and> logs s s'"
    using c l by blast
  have slots: "\<forall>n.
      (fst (load_audio_file s (notes_dir s @ ''/'' @ n @ ''.wav'')) = None \<longrightarrow>
         melody_slot s beat_ms n = silent beat_ms \<and>
         len (melody_slot s beat_ms n) = max 0 beat_ms) \<and>
      (\<forall>seg. fst (load_audio_file s (notes_dir s @ ''/'' @ n @ ''.wav'')) = Some seg \<longrightarrow>
         melody_slot s beat_ms n = seg @ silent (beat_ms - len seg))"
    using f g by blast
  have rest: "0 \<le> beat_ms \<longrightarrow>
      (\<forall>n. fst (load_audio_file s (notes_dir s @ ''/'' @ n @ ''.wav'')) = None \<longrightarrow>
         len (melody_slot s beat_ms n) = beat_ms)"
    using fl by blast
  have total: "0 \<le> beat_ms \<and>
      (\<forall>n\<in>set ns. \<forall>seg.
         fst (load_audio_file s (notes_dir s @ ''/'' @ n @ ''.wav'')) = Some seg \<longrightarrow>
         len seg \<le> beat_ms) \<longrightarrow>
      (\<forall>n\<in>set ns. len (melody_slot s beat_ms n) = beat_ms) \<and>
      len (concat (map (melody_slot s beat_ms) ns)) = int (length ns) * beat_ms"
    using tot by blast
  show ?thesis
    by (intro conjI) (fact first slots rest total)+
qed

theorem C4_melody_slots_witness:
  "(\<exists>s'. create_melody_sound
       ((init [''notes/C4.wav'' \<mapsto> Wav [1, 1], ''notes/E4.wav'' \<mapsto> Wav [2]])
          \<lparr>melodies := [''lead'' \<mapsto> [''C4'', ''D4'', ''E4'']]\<rparr>) ''lead'' 5 =
     Inr (Some [1, 1, 0, 0, 0, 0, 0, 0, 0, 0, 2, 0, 0, 0, 0], s')) \<and>
   len [1, 1, 0, 0, 0, 0, 0, 0, 0, 0, 2, 0, 0, 0, 0] = 3 * 5 \<and>
   (\<exists>s'. create_melody_sound
       ((init [''notes/L.wav'' \<mapsto> Wav [7, 8, 9]])
          \<lparr>melodies := [''lead'' \<mapsto> [''L'', ''D'']]\<rparr>) ''lead'' 2 =
     Inr (Some [7, 8, 9, 0, 0], s'))"
proof -
  have a: "\<exists>s'. create_melody_sound
       ((init [''notes/C4.wav'' \<mapsto> Wav [1, 1], ''notes/E4.wav'' \<mapsto> Wav [2]])
          \<lparr>melodies := [''lead'' \<mapsto> [''C4'', ''D4'', ''E4'']]\<rparr>) ''lead'' 5 =
     Inr (Some [1, 1, 0, 0, 0, 0, 0, 0, 0, 0, 2, 0, 0, 0, 0], s')"
    using C4_melody_slots [of
      "(init [''notes/C4.wav'' \<mapsto> Wav [1, 1], ''notes/E4.wav'' \<mapsto> Wav [2]])
          \<lparr>melodies := [''lead'' \<mapsto> [''C4'', ''D4'', ''E4'']]\<rparr>"
      "''lead''" "[''C4'', ''D4'', ''E4'']" 5]
    by (simp add: init_def load_audio_file_def melody_slot_def note_slot_def silent_def len_def
        numeral_eq_Suc) blast
  have b: "\<exists>s'. create_melody_sound
       ((init [''notes/L.wav'' \<mapsto> Wav [7, 8, 9]])
          \<lparr>melodies := [''lead'' \<mapsto> [''L'', ''D'']]\<rparr>) ''lead'' 2 =
     Inr (Some [7, 8, 9, 0, 0], s')"
    using C4_melody_slots [of
      "(init [''notes/L.wav'' \<mapsto> Wav [7, 8, 9]])\<lparr>melodies := [''lead'' \<mapsto> [''L'', ''D'']]\<rparr>"
      "''lead''" "[''L'', ''D'']" 2]
    by (simp add: init_def load_audio_file_def melody_slot_def note_slot_def silent_def len_def
        numeral_eq_Suc) blast
  show ?thesis using a b by (simp add: len_def)
qed


section \<open>Tempo\<close>

text \<open>
  C2. For every integer \<open>v\<close> passed to \<open>set_tempo\<close>: when \<open>20 \<le> v \<le> 300\<close> the
  active tempo becomes \<open>v\<close> and nothing is printed; otherwise the tempo is the one before
  the call (whatever it was, not 120) and a warning naming \<open>v\<close> is printed. The values
  20 and 300 are accepted, 19 and 301 are rejected.
\<close>

theorem C2_set_tempo:
  "(20 \<le> v \<and> v \<le> 300 \<longrightarrow>
      tempo (set_tempo s v) = v \<and> trace (set_tempo s v) = trace s) \<and>
   (\<not> (20 \<le> v \<and> v \<le> 300) \<longrightarrow>
      tempo (set_tempo s v) = tempo s \<and>
      trace (set_tempo s v) = trace s @ [Print (TempoOutOfRange v)]) \<and>
   tempo (set_tempo s 20) = 20 \<and> tempo (set_tempo s 300) = 300 \<and>
   tempo (set_tempo s 19) = tempo s \<and> tempo (set_tempo s 301) = tempo s"
  by (simp add: set_tempo_def print_def)

theorem C2_set_tempo_witness:
  "tempo (set_tempo (set_tempo (init Map.empty) 90) 90) = 90 \<and>
   tempo (set_tempo (set_tempo (init Map.empty) 90) 19) = 90 \<and>
   tempo (set_tempo (set_tempo (init Map.empty) 90) 19) \<noteq> 120 \<and>
   trace (set_tempo (set_tempo (init Map.empty) 90) 19) = [Print (TempoOutOfRange 19)] \<and>
   tempo (set_tempo (set_tempo (init Map.empty) 90) 301) = 90"
proof -
  have t: "tempo (set_tempo (init Map.empty) 90) = 90"
    and e: "trace (set_tempo (init Map.empty) 90) = []"
    using C2_set_tempo [of 90 "init Map.empty"] by (simp_all add: init_def)
  show ?thesis
    using C2_set_tempo [of 90 "set_tempo (init Map.empty) 90"]
      C2_set_tempo [of 19 "set_tempo (init Map.empty) 90"]
      C2_set_tempo [of 301 "set_tempo (init Map.empty) 90"]
    by (simp add: t e)
qed


section \<open>Facts about mixing\<close>

lemma len_overlay: "len (overlay a b) = len a"
  by (induction a b rule: overlay.induct) (simp_all add: len_def)




lemma create_pattern_sound_logs:
  assumes "patterns s name = Some p"
  shows "\<exists>r s'. create_pattern_sound s name b = Inr (r, s') \<and> logs s s'"
proof -
  let ?p = "samples_dir s @ ''/'' @ name @ ''.wav''"
  obtain a s1 where l: "load_audio_file s ?p = (a, s1)" by (cases "load_audio_file s ?p")
  have "logs s s1" using load_audio_file_logs [of s ?p] l by simp
  then show ?thesis using assms l by (simp add: create_pattern_sound_def)
qed

lemma create_melody_sound_logs:
  assumes "melodies s name = Some ns"
  shows "\<exists>r s'. create_melody_sound s name b = Inr (r, s') \<and> logs s s'"
proof -
  obtain s' where "melody_loop s b ns (silent 0) =
      (silent 0 @ concat (map (melody_slot s b) ns), s')" and "logs s s'"
    using melody_loop_concat [of s b ns "silent 0"] by blast
  then show ?thesis using assms by (simp add: create_melody_sound_def)
qed

lemma mix_items_total:
  "\<exists>final' s'. mix_items s items b final = Inr (final', s') \<and> logs s s' \<and> len final' = len final"
proof (induction items arbitrary: s final)
  case Nil
  show ?case by (simp add: logs_refl)
next
  case (Cons name items)
  let ?r = "if name \<in> dom (patterns s) then create_pattern_sound s name b
            else if name \<in> dom (melodies s) then create_melody_sound s name b
            else Inr (None, s)"
  have "\<exists>sound s1. ?r = Inr (sound, s1) \<and> logs s s1"
    using create_pattern_sound_logs [of s name _ b] create_melody_sound_logs [of s name _ b]
    by (auto simp: logs_refl)
  then obtain sound s1 where r: "?r = Inr (sound, s1)" and l1: "logs s s1" by blast
  let ?f = "if truthy sound then overlay final (the sound) else final"
  from Cons.IH [of s1 ?f] obtain final' s' where
    m: "mix_items s1 items b ?f = Inr (final', s')" and l2: "logs s1 s'"
    and n: "len final' = len ?f" by blast
  have "len ?f = len final" by (simp add: len_overlay)
  moreover have "mix_items s (name # items) b final = Inr (final', s')"
    using r m by simp
  ultimately show ?case using n logs_trans [OF l1 l2] by auto
qed

lemma mix_and_play_empty: "mix_and_play s [] loop = Inr (print NoItems s)"
  by (simp add: mix_and_play_def)

lemma mix_and_play_total:
  assumes "tempo s \<noteq> 0" and "items \<noteq> []"
  shows "\<exists>final s'. mix_items s items (60000 div tempo s) (silent (60000 div tempo s * 4))
             = Inr (final, s') \<and> logs s s' \<and>
           len final = len (silent (60000 div tempo s * 4)) \<and>
           mix_and_play s items loop = Inr (play_with_simpleaudio (stop_playback s') final)"
proof -
  obtain final s' where
    m: "mix_items s items (60000 div tempo s) (silent (60000 div tempo s * 4)) = Inr (final, s')"
    and l: "logs s s'" and n: "len final = len (silent (60000 div tempo s * 4))"
    using mix_items_total by blast
  have "mix_and_play s items loop = Inr (play_with_simpleaudio (stop_playback s') final)"
    using assms m by (simp add: mix_and_play_def Let_def)
  then show ?thesis using m l n by blast
qed

lemma mix_and_save_total:
  assumes "tempo s \<noteq> 0"
  shows "\<exists>final s'. mix_items s items (60000 div tempo s) (silent (60000 div tempo s * 4))
             = Inr (final, s') \<and> logs s s' \<and>
           len final = len (silent (60000 div tempo s * 4)) \<and>
           mix_and_save s items filename = Inr (print (Saved filename) (export s' filename final))"
proof -
  obtain final s' where
    m: "mix_items s items (60000 div tempo s) (silent (60000 div tempo s * 4)) = Inr (final, s')"
    and l: "logs s s'" and n: "len final = len (silent (60000 div tempo s * 4))"
    using mix_items_total by blast
  have "mix_and_save s items filename = Inr (print (Saved filename) (export s' filename final))"
    using assms m by (simp add: mix_and_save_def Let_def)
  then show ?thesis using m l n by blast
qed

lemma measure_len: "0 < t \<Longrightarrow> len (silent (60000 div t * 4)) = 4 * (60000 div t)"
proof -
  assume "0 < t"
  then have "0 \<le> 60000 div t" by (simp add: pos_imp_zdiv_nonneg_iff)
  then show ?thesis by (simp add: len_silent)
qed

lemma beat_bounds:
  assumes "20 \<le> t" and "t \<le> 300"
  shows "200 \<le> 60000 div t \<and> 60000 div t \<le> (3000::int)"
proof -
  have "(60000::int) div 300 \<le> 60000 div t"
    using assms by (intro zdiv_mono2) simp_all
  moreover have "(60000::int) div t \<le> 60000 div 20"
    using assms by (intro zdiv_mono2) simp_all
  ultimately show ?thesis by simp
qed


section \<open>The invariant of the sequencer\<close>

lemma one_playback_cong:
  "current_playback s' = current_playback s \<Longrightarrow> playing s' = playing s \<Longrightarrow>
   one_playback s' = one_playback s"
  by (simp add: one_playback_def split: option.split)

lemma one_playback_logs: "logs s s' \<Longrightarrow> one_playback s' = one_playback s"
  using logs_fields [of s s'] by (simp add: one_playback_def split: option.split)

lemma stop_playback_fields:
  "tempo (stop_playback s) = tempo s \<and> current_playback (stop_playback s) = current_playback s \<and>
   next_handle (stop_playback s) = next_handle s"
  by (simp add: stop_playback_def split: option.split)

lemma stop_playback_playing: "one_playback s \<Longrightarrow> playing (stop_playback s) = []"
  by (auto simp: one_playback_def stop_playback_def split: option.splits)

lemma play_with_simpleaudio_fields:
  "tempo (play_with_simpleaudio s final) = tempo s \<and>
   current_playback (play_with_simpleaudio s final) = Some (next_handle s) \<and>
   playing (play_with_simpleaudio s final) = playing s @ [next_handle s] \<and>
   trace (play_with_simpleaudio s final) = trace s @ [Play (next_handle s) final]"
  by (simp add: play_with_simpleaudio_def Let_def)

lemma saved_fields:
  "tempo (print (Saved f) (export s f final)) = tempo s \<and>
   current_playback (print (Saved f) (export s f final)) = current_playback s \<and>
   playing (print (Saved f) (export s f final)) = playing s \<and>
   files (print (Saved f) (export s f final)) f = Some (Wav final) \<and>
   trace (print (Saved f) (export s f final)) = trace s @ [Export f final, Print (Saved f)]"
  by (simp add: print_def export_def)

lemma exec_invariant:
  assumes "20 \<le> tempo s" and "tempo s \<le> 300" and "one_playback s"
  shows "\<exists>s'. exec s c = Inr s' \<and> 20 \<le> tempo s' \<and> tempo s' \<le> 300 \<and> one_playback s'"
proof (cases c)
  case (SetTempo v)
  then show ?thesis using assms
    by (auto simp: set_tempo_def print_def one_playback_def split: option.splits)
next
  case (DefinePattern name vals)
  then show ?thesis using assms
    one_playback_cong [of "s\<lparr>patterns := (patterns s)(name \<mapsto> vals)\<rparr>" s] by simp
next
  case (DefineMelody name ns)
  then show ?thesis using assms
    one_playback_cong [of "s\<lparr>melodies := (melodies s)(name \<mapsto> ns)\<rparr>" s] by simp
next
  case (Mix items)
  show ?thesis
  proof (cases "items = []")
    case True
    then show ?thesis using Mix assms one_playback_cong [of "print NoItems s" s]
      by (simp add: mix_and_play_def print_def)
  next
    case False
    have "tempo s \<noteq> 0" using assms(1) by simp
    from mix_and_play_total [OF this False, of False] obtain final s1 where
      l: "logs s s1"
      and m: "mix_and_play s items False = Inr (play_with_simpleaudio (stop_playback s1) final)"
      by blast
    have o: "one_playback s1" using one_playback_logs [OF l] assms(3) by simp
    have t: "tempo s1 = tempo s" using logs_fields [OF l] by simp
    let ?s' = "play_with_simpleaudio (stop_playback s1) final"
    have "one_playback ?s'"
      using stop_playback_playing [OF o] play_with_simpleaudio_fields [of "stop_playback s1" final]
      by (simp add: one_playback_def)
    moreover have "tempo ?s' = tempo s"
      using t stop_playback_fields [of s1] play_with_simpleaudio_fields [of "stop_playback s1" final]
      by simp
    ultimately show ?thesis using Mix m assms by simp
  qed
next
  case (Save items filename)
  have "tempo s \<noteq> 0" using assms(1) by simp
  from mix_and_save_total [OF this, of items filename] obtain final s1 where
    l: "logs s s1"
    and m: "mix_and_save s items filename = Inr (print (Saved filename) (export s1 filename final))"
    by blast
  have o: "one_playback s1" using one_playback_logs [OF l] assms(3) by simp
  have t: "tempo s1 = tempo s" using logs_fields [OF l] by simp
  let ?s' = "print (Saved filename) (export s1 filename final)"
  have "one_playback ?s'"
    using o saved_fields [of filename s1 final] one_playback_cong [of ?s' s1] by simp
  moreover have "tempo ?s' = tempo s" using t saved_fields [of filename s1 final] by simp
  ultimately show ?thesis using Save m assms by simp
qed

lemma run_invariant:
  assumes "20 \<le> tempo s" and "tempo s \<le> 300" and "one_playback s"
  shows "\<exists>s'. run s cs = Inr s' \<and> 20 \<le> tempo s' \<and> tempo s' \<le> 300 \<and> one_playback s'"
  using assms
proof (induction cs arbitrary: s)
  case Nil
  then show ?case by simp
next
  case (Cons c cs)
  from exec_invariant [OF Cons.prems, of c] obtain s1 where
    e: "exec s c = Inr s1" and i: "20 \<le> tempo s1" "tempo s1 \<le> 300" "one_playback s1" by blast
  from Cons.IH [OF i] show ?case using e by simp
qed

lemma init_invariant: "20 \<le> tempo (init fs) \<and> tempo (init fs) \<le> 300 \<and> one_playback (init fs)"
  by (simp add: init_def one_playback_def)

text \<open>
  C10. The tempo starts at 120, and after every sequence of commands the run has not
  raised and the tempo is within 20 and 300: \<open>set_tempo\<close> never takes it outside.
  So the divisor of \<open>60000 div tempo\<close> is positive and the beat is within 200 and
  3000 ms.
\<close>

theorem C10_tempo_invariant:
  "tempo (init fs) = 120 \<and>
   (\<exists>s. run (init fs) cs = Inr s \<and> 20 \<le> tempo s \<and> tempo s \<le> 300 \<and> 0 < tempo s \<and>
      200 \<le> 60000 div tempo s \<and> 60000 div tempo s \<le> 3000 \<and>
      (\<forall>v. 20 \<le> tempo (set_tempo s v) \<and> tempo (set_tempo s v) \<le> 300))"
proof -
  obtain s where r: "run (init fs) cs = Inr s" and t: "20 \<le> tempo s" "tempo s \<le> 300"
    using run_invariant [of "init fs" cs] init_invariant [of fs] by blast
  have "\<forall>v. 20 \<le> tempo (set_tempo s v) \<and> tempo (set_tempo s v) \<le> 300"
    using t by (simp add: set_tempo_def print_def)
  then show ?thesis using r t beat_bounds [OF t] by (auto simp: init_def)
qed

theorem C10_tempo_invariant_witness:
  "\<exists>s. run (init Map.empty) [SetTempo 0, SetTempo 20, SetTempo 301, Mix [], Save [''x''] ''o.wav'']
         = Inr s \<and> tempo s = 20 \<and> 60000 div tempo s = 3000"
proof -
  have "\<exists>s. run (init Map.empty) [SetTempo 0, SetTempo 20, SetTempo 301, Mix [], Save [''x''] ''o.wav'']
         = Inr s \<and> tempo s = 20"
    by (simp add: set_tempo_def print_def init_def mix_and_play_def mix_and_save_def export_def
        Let_def)
  then show ?thesis
    using C10_tempo_invariant [of Map.empty
        "[SetTempo 0, SetTempo 20, SetTempo 301, Mix [], Save [''x''] ''o.wav'']"]
    by auto
qed


section \<open>Mixing, playing and saving\<close>

text \<open>
  C1, at the input where the code departs from it. \<open>mix_and_play\<close> with no item
  prints the error and does nothing else, but \<open>mix_and_save\<close> with no item, on a
  new sequencer, allocates the silent measure of 2000 ms, hands it to the file exporter
  and reports the file as saved.
\<close>

theorem C1_mix_and_save_empty:
  "\<exists>s'. mix_and_save (init Map.empty) [] ''out.wav'' = Inr s' \<and>
      trace s' = [Export ''out.wav'' (silent 2000), Print (Saved ''out.wav'')] \<and>
      files s' ''out.wav'' = Some (Wav (silent 2000)) \<and>
      len (silent 2000) = 2000 \<and>
      mix_and_play (init Map.empty) [] False = Inr (print NoItems (init Map.empty)) \<and>
      trace (print NoItems (init Map.empty)) = [Print NoItems]"
  by (simp add: mix_and_save_def mix_and_play_def init_def print_def export_def len_silent
      Let_def)



text \<open>
  C7. For every tempo \<open>t\<close> within 20 and 300, both mixes run their items with the
  beat \<open>60000 div t\<close> on a measure of four such beats and do not raise; the quotient
  is the floor (\<open>t * b \<le> 60000 < t * (b + 1)\<close>), 500 at 120 and 666 at 90; and
  the beat is read from the tempo at each call: after \<open>set_tempo s v\<close> with \<open>v\<close>
  in range, the next mix runs with \<open>60000 div v\<close>.
\<close>

theorem C7_beat_duration:
  assumes "20 \<le> tempo s" and "tempo s \<le> 300"
  shows "(\<exists>final s'.
            mix_items s items (60000 div tempo s) (silent (60000 div tempo s * 4)) = Inr (final, s') \<and>
            (items \<noteq> [] \<longrightarrow>
               mix_and_play s items loop = Inr (play_with_simpleaudio (stop_playback s') final)) \<and>
            mix_and_save s items filename = Inr (print (Saved filename) (export s' filename final)) \<and>
            len final = 4 * (60000 div tempo s)) \<and>
         tempo s * (60000 div tempo s) \<le> 60000 \<and>
         60000 < tempo s * (60000 div tempo s + 1) \<and>
         (tempo s = 120 \<longrightarrow> 60000 div tempo s = 500) \<and>
         (tempo s = 90 \<longrightarrow> 60000 div tempo s = 666) \<and>
         (\<forall>v. 20 \<le> v \<and> v \<le> 300 \<longrightarrow>
            (\<exists>final s'.
               mix_items (set_tempo s v) items (60000 div v) (silent (60000 div v * 4))
                 = Inr (final, s') \<and>
               (items \<noteq> [] \<longrightarrow> mix_and_play (set_tempo s v) items loop =
                  Inr (play_with_simpleaudio (stop_playback s') final)) \<and>
               mix_and_save (set_tempo s v) items filename =
                  Inr (print (Saved filename) (export s' filename final)) \<and>
               len final = 4 * (60000 div v)))"
proof -
  have mix: "\<exists>final s'.
            mix_items r items (60000 div tempo r) (silent (60000 div tempo r * 4)) = Inr (final, s') \<and>
            (items \<noteq> [] \<longrightarrow>
               mix_and_play r items loop = Inr (play_with_simpleaudio (stop_playback s') final)) \<and>
            mix_and_save r items filename = Inr (print (Saved filename) (export s' filename final)) \<and>
            len final = 4 * (60000 div tempo r)" if t: "20 \<le> tempo r" for r
  proof -
    have z: "tempo r \<noteq> 0" and pos: "0 < tempo r" using t by simp_all
    from mix_and_save_total [OF z, of items filename] obtain final s' where
      m: "mix_items r items (60000 div tempo r) (silent (60000 div tempo r * 4)) = Inr (final, s')"
      and n: "len final = len (silent (60000 div tempo r * 4))"
      and sv: "mix_and_save r items filename = Inr (print (Saved filename) (export s' filename final))"
      by blast
    have "mix_and_play r items loop = Inr (play_with_simpleaudio (stop_playback s') final)"
      if "items \<noteq> []"
      using mix_and_play_total [OF z that, of loop] m by auto
    then show ?thesis using m n sv measure_len [OF pos] by auto
  qed
  have pos: "0 < tempo s" using assms(1) by simp
  have e: "tempo s * (60000 div tempo s) + 60000 mod tempo s = 60000"
    by (rule mult_div_mod_eq)
  have f1: "tempo s * (60000 div tempo s) \<le> 60000"
    using e pos_mod_sign [OF pos, of 60000] by linarith
  have "tempo s * (60000 div tempo s + 1) = tempo s * (60000 div tempo s) + tempo s"
    by (simp add: algebra_simps)
  then have f2: "60000 < tempo s * (60000 div tempo s + 1)"
    using e pos_mod_bound [OF pos, of 60000] by linarith
  have fresh: "\<exists>final s'.
               mix_items (set_tempo s v) items (60000 div v) (silent (60000 div v * 4))
                 = Inr (final, s') \<and>
               (items \<noteq> [] \<longrightarrow> mix_and_play (set_tempo s v) items loop =
                  Inr (play_with_simpleaudio (stop_playback s') final)) \<and>
               mix_and_save (set_tempo s v) items filename =
                  Inr (print (Saved filename) (export s' filename final)) \<and>
               len final = 4 * (60000 div v)" if "20 \<le> v \<and> v \<le> 300" for v
  proof -
    have "tempo (set_tempo s v) = v" using that by (simp add: set_tempo_def)
    then show ?thesis using mix [of "set_tempo s v"] that by simp
  qed
  show ?thesis using mix [OF assms(1)] f1 f2 fresh by auto
qed

theorem C7_beat_duration_witness:
  "(\<exists>s'. mix_and_save (set_tempo (init Map.empty) 90) [''x''] ''o.wav'' = Inr s' \<and>
      files s' ''o.wav'' = Some (Wav (silent 2664))) \<and>
   (60000::int) div 90 = 666"
proof -
  let ?S = "set_tempo (init Map.empty) 90"
  have t: "tempo ?S = 90" by (simp add: set_tempo_def init_def)
  have a: "20 \<le> tempo ?S" "tempo ?S \<le> 300" by (simp_all add: t)
  have e: "mix_items ?S [''x''] 666 (silent 2664) = Inr (silent 2664, ?S)"
    by (simp add: set_tempo_def init_def)
  from C7_beat_duration [OF a, of "[''x'']" False "''o.wav''"] obtain final s' where
    m: "mix_items ?S [''x''] (60000 div tempo ?S) (silent (60000 div tempo ?S * 4)) = Inr (final, s')"
    and sv: "mix_and_save ?S [''x''] ''o.wav'' = Inr (print (Saved ''o.wav'') (export s' ''o.wav'' final))"
    by blast
  have "final = silent 2664" using m e by (simp add: t)
  then have "files (print (Saved ''o.wav'') (export s' ''o.wav'' final)) ''o.wav''
      = Some (Wav (silent 2664))"
    by (simp add: print_def export_def)
  then show ?thesis using sv by simp
qed

text \<open>
  C9. After every sequence of commands the sink plays at most one handle, the one the
  sequencer holds. A play of at least one item stops the held handle first, so that
  nothing is playing when the new playback starts, and then holds the new handle alone.
  \<open>stop_playback\<close> changes nothing when no handle is held, leaves nothing playing
  when nothing was, and a second stop changes nothing of what is playing.
\<close>

theorem C9_one_playback:
  "\<exists>s. run (init fs) cs = Inr s \<and> length (playing s) \<le> 1 \<and> one_playback s \<and>
     playing (stop_playback s) = [] \<and>
     (\<forall>items loop. items \<noteq> [] \<longrightarrow>
        (\<exists>final s1. logs s s1 \<and>
           mix_and_play s items loop = Inr (play_with_simpleaudio (stop_playback s1) final) \<and>
           playing (stop_playback s1) = [] \<and>
           playing (play_with_simpleaudio (stop_playback s1) final) = [next_handle s] \<and>
           current_playback (play_with_simpleaudio (stop_playback s1) final)
             = Some (next_handle s))) \<and>
     (current_playback s = None \<longrightarrow> stop_playback s = s) \<and>
     (playing s = [] \<longrightarrow> playing (stop_playback s) = []) \<and>
     playing (stop_playback (stop_playback s)) = playing (stop_playback s)"
proof -
  obtain s where r: "run (init fs) cs = Inr s" and t: "20 \<le> tempo s" and o: "one_playback s"
    using run_invariant [of "init fs" cs] init_invariant [of fs] by blast
  have n: "length (playing s) \<le> 1"
    using o by (auto simp: one_playback_def split: option.splits)
  have st: "playing (stop_playback s) = []" by (rule stop_playback_playing [OF o])
  have mp: "\<exists>final s1. logs s s1 \<and>
           mix_and_play s items loop = Inr (play_with_simpleaudio (stop_playback s1) final) \<and>
           playing (stop_playback s1) = [] \<and>
           playing (play_with_simpleaudio (stop_playback s1) final) = [next_handle s] \<and>
           current_playback (play_with_simpleaudio (stop_playback s1) final)
             = Some (next_handle s)" if i: "items \<noteq> []" for items loop
  proof -
    have z: "tempo s \<noteq> 0" using t by simp
    from mix_and_play_total [OF z i, of loop] obtain final s1 where
      l: "logs s s1"
      and m: "mix_and_play s items loop = Inr (play_with_simpleaudio (stop_playback s1) final)"
      by blast
    have o1: "one_playback s1" using one_playback_logs [OF l] o by simp
    have p: "playing (stop_playback s1) = []" by (rule stop_playback_playing [OF o1])
    have h: "next_handle (stop_playback s1) = next_handle s"
      using stop_playback_fields [of s1] logs_fields [OF l] by simp
    show ?thesis
      using l m p h play_with_simpleaudio_fields [of "stop_playback s1" final] by auto
  qed
  have idle: "current_playback s = None \<longrightarrow> stop_playback s = s"
    by (simp add: stop_playback_def)
  have twice: "playing (stop_playback (stop_playback s)) = playing (stop_playback s)"
    by (simp add: stop_playback_def split: option.split)
  have every: "\<forall>items loop. items \<noteq> [] \<longrightarrow>
        (\<exists>final s1. logs s s1 \<and>
           mix_and_play s items loop = Inr (play_with_simpleaudio (stop_playback s1) final) \<and>
           playing (stop_playback s1) = [] \<and>
           playing (play_with_simpleaudio (stop_playback s1) final) = [next_handle s] \<and>
           current_playback (play_with_simpleaudio (stop_playback s1) final)
             = Some (next_handle s))"
    using mp by simp
  have quiet: "playing s = [] \<longrightarrow> playing (stop_playback s) = []" using st by simp
  show ?thesis
    by (intro exI [of _ s] conjI) (fact r n o st every idle quiet twice)+
qed

theorem C9_one_playback_witness:
  "\<exists>s. run (init Map.empty) [Mix [''x''], Mix [''y'']] = Inr s \<and>
     trace s = [Play 0 (silent 2000), Stop 0, Play 1 (silent 2000)] \<and>
     playing s = [1] \<and> current_playback s = Some 1 \<and> length (playing s) \<le> 1 \<and>
     playing (stop_playback s) = []"
proof -
  have "\<exists>s. run (init Map.empty) [Mix [''x''], Mix [''y'']] = Inr s \<and>
     trace s = [Play 0 (silent 2000), Stop 0, Play 1 (silent 2000)] \<and>
     playing s = [1] \<and> current_playback s = Some 1"
    by (simp add: init_def mix_and_play_def Let_def stop_playback_def play_with_simpleaudio_def)
  then obtain s where e: "run (init Map.empty) [Mix [''x''], Mix [''y'']] = Inr s"
    and f: "trace s = [Play 0 (silent 2000), Stop 0, Play 1 (silent 2000)]"
      "playing s = [1]" "current_playback s = Some 1" by blast
  from C9_one_playback [of Map.empty "[Mix [''x''], Mix [''y'']]"]
  have "length (playing s) \<le> 1 \<and> playing (stop_playback s) = []"
    using e by simp
  then show ?thesis using e f by simp
qed

end
